theory Spec2Isabelle
  imports Main
begin

section \<open>JavaScript strings\<close>

text \<open>
  A JavaScript string is a sequence of UTF-16 code units. A code unit is modelled as a
  natural number (below 65536 in every real string; nothing below depends on the bound),
  so that the white space \<open>String.prototype.trim\<close> removes can be listed in full.
  \<open>js\<close> turns an ASCII literal of the source into its code units.
\<close>

type_synonym jsstring = "nat list"

definition js :: "string \<Rightarrow> jsstring" where
  "js s = map of_char s"

text \<open>
  ECMAScript \<open>WhiteSpace\<close> and \<open>LineTerminator\<close>: TAB, LF, VT, FF, CR, SP, NBSP,
  U+1680, U+2000..U+200A, U+2028, U+2029, U+202F, U+205F, U+3000 and U+FEFF.
\<close>

definition isWhiteSpace :: "nat \<Rightarrow> bool" where
  "isWhiteSpace c \<longleftrightarrow>
     c \<in> set [9, 10, 11, 12, 13, 32, 160, 5760, 8232, 8233, 8239, 8287, 12288, 65279]
     \<or> (8192 \<le> c \<and> c \<le> 8202)"

definition trim :: "jsstring \<Rightarrow> jsstring" where
  "trim s = rev (dropWhile isWhiteSpace (rev (dropWhile isWhiteSpace s)))"

definition startsWith :: "jsstring \<Rightarrow> jsstring \<Rightarrow> bool" where
  "startsWith s p \<longleftrightarrow> take (length p) s = p"

definition endsWith :: "jsstring \<Rightarrow> jsstring \<Rightarrow> bool" where
  "endsWith s p \<longleftrightarrow> length p \<le> length s \<and> drop (length s - length p) s = p"

text \<open>
  \<open>s.slice(b, e)\<close>: a negative index counts from the end, both indices are clamped to
  the string, and an empty range gives the empty string.
\<close>

definition slice :: "jsstring \<Rightarrow> int \<Rightarrow> int \<Rightarrow> jsstring" where
  "slice s b e =
     (let len = int (length s);
          k = (if b < 0 then max (len + b) 0 else min b len);
          final = (if e < 0 then max (len + e) 0 else min e len)
      in take (nat (final - k)) (drop (nat k) s))"

section \<open>index.ts: the command line\<close>

definition flagName :: jsstring where
  "flagName = js ''--anki-connect-key''"

definition doubleQuote :: jsstring where
  "doubleQuote = [34]"

definition singleQuote :: jsstring where
  "singleQuote = [39]"

text \<open>
  One statement of the loop body of \<open>parseArgs\<close>:
  \<^verbatim>\<open>if (key.startsWith(q) && key.endsWith(q)) { key = key.slice(1, -1).trim(); }\<close>
\<close>

definition stripQuotes :: "jsstring \<Rightarrow> jsstring \<Rightarrow> jsstring" where
  "stripQuotes q key =
     (if startsWith key q \<and> endsWith key q then trim (slice key 1 (- 1)) else key)"

text \<open>
  What the loop body assigns to \<open>ankiConnectKey\<close> from the argument after the flag:
  trimmed, then the statement above for the double quote, then for the single quote.
\<close>

definition cleanKey :: "jsstring \<Rightarrow> jsstring" where
  "cleanKey v = stripQuotes singleQuote (stripQuotes doubleQuote (trim v))"

text \<open>
  The \<open>for\<close> loop of \<open>parseArgs\<close>, with its index \<open>i\<close> and the variable
  \<open>ankiConnectKey\<close> (\<open>None\<close> is \<open>undefined\<close>). A flag with an argument after it
  advances the index by two, anything else by one.
\<close>

function parseArgs_loop :: "jsstring list \<Rightarrow> nat \<Rightarrow> jsstring option \<Rightarrow> jsstring option" where
  "parseArgs_loop args i ankiConnectKey =
     (if i < length args then
        (if args ! i = flagName \<and> i + 1 < length args
         then parseArgs_loop args (i + 1 + 1) (Some (cleanKey (args ! (i + 1))))
         else parseArgs_loop args (i + 1) ankiConnectKey)
      else ankiConnectKey)"
  by pat_completeness auto
termination
  by (relation "measure (\<lambda>(args, i, k). length args - i)") auto

declare parseArgs_loop.simps [simp del]

text \<open>
  \<open>parseArgs\<close> reads \<open>process.argv\<close> and drops its first two entries (the interpreter
  and the script). The debug line written to stderr is left out: it changes no result.
\<close>

definition parseArgs :: "jsstring list \<Rightarrow> jsstring option" where
  "parseArgs argv = parseArgs_loop (drop 2 argv) 0 None"

text \<open>
  The same scan written over the list of arguments still to be read; it is proved equal
  to the loop below and used only to reason about it.
\<close>

fun scanArgs :: "jsstring list \<Rightarrow> jsstring option \<Rightarrow> jsstring option" where
  "scanArgs [] key = key"
| "scanArgs [a] key = key"
| "scanArgs (a # v # rest) key =
     (if a = flagName then scanArgs rest (Some (cleanKey v)) else scanArgs (v # rest) key)"

text \<open>
  The reading of the command-line contract that removes one layer of quotes: trim, drop
  one pair of surrounding double or single quotes, trim again. It follows the words of
  the specification and is compared with \<open>cleanKey\<close>, which follows the code.
\<close>

definition spec_oneLayer :: "jsstring \<Rightarrow> jsstring" where
  "spec_oneLayer v =
     (let t = trim v
      in if (startsWith t doubleQuote \<and> endsWith t doubleQuote)
            \<or> (startsWith t singleQuote \<and> endsWith t singleQuote)
         then trim (slice t 1 (- 1)) else t)"

section \<open>ankiMcpServer.ts: the protocol server\<close>

text \<open>
  The constructor's \<open>ankiConfig\<close>:
  \<^verbatim>\<open>options.ankiConnectKey ? { apiKey: options.ankiConnectKey } : {}\<close>.
  An undefined key and the empty string are both falsy, and give a configuration
  without \<open>apiKey\<close>.
\<close>

record AnkiConfig =
  apiKey :: "jsstring option"

definition ankiConfig :: "jsstring option \<Rightarrow> AnkiConfig" where
  "ankiConfig ankiConnectKey =
     (case ankiConnectKey of
        None \<Rightarrow> \<lparr>apiKey = None\<rparr>
      | Some k \<Rightarrow> if k = [] then \<lparr>apiKey = None\<rparr> else \<lparr>apiKey = Some k\<rparr>)"

text \<open>The error codes of the MCP SDK, and what a handler can throw.\<close>

datatype ErrorCode =
  ConnectionClosed | RequestTimeout | ParseError | InvalidRequest | MethodNotFound
  | InvalidParams | InternalError

datatype 'x thrown = McpError ErrorCode string | Thrown 'x

text \<open>The five requests \<open>setupHandlers\<close> registers a handler for.\<close>

datatype 'a request =
  ListResources | ListResourceTemplates | ReadResource string | ListTools
  | CallTool string 'a

text \<open>
  The calls the server makes on its collaborators, in the order it makes them: the log
  of a request.
\<close>

datatype 'a call =
  Call_checkConnection | Call_listResources | Call_listResourceTemplates
  | Call_readResource string | Call_getToolSchema | Call_executeTool string 'a

text \<open>
  The collaborators are not part of the server: \<open>AnkiClient.checkConnection\<close>
  resolves (\<open>None\<close>) or rejects with some error, and each method of the resource and
  tool handlers returns a result or throws.
\<close>

record ('x, 'a, 'r) collaborators =
  ankiClient_checkConnection :: "'x option"
  listResources :: "'x thrown + 'r"
  listResourceTemplates :: "'x thrown + 'r"
  readResource :: "string \<Rightarrow> 'x thrown + 'r"
  getToolSchema :: "'x thrown + 'r"
  executeTool :: "string \<Rightarrow> 'a \<Rightarrow> 'x thrown + 'r"

definition connectFailedMessage :: string where
  "connectFailedMessage =
     ''Failed to connect to Anki. Please make sure Anki is running and the AnkiConnect plugin is enabled.''"

text \<open>
  The private \<open>checkConnection\<close>: whatever the client throws is caught, dropped, and
  replaced by one \<open>McpError\<close>.
\<close>

definition checkConnection ::
  "('x, 'a, 'r) collaborators \<Rightarrow> 'a call list \<Rightarrow> ('x thrown + unit) \<times> 'a call list" where
  "checkConnection c log =
     (case ankiClient_checkConnection c of
        None \<Rightarrow> (Inr (), log @ [Call_checkConnection])
      | Some error \<Rightarrow>
          (Inl (McpError InternalError connectFailedMessage), log @ [Call_checkConnection]))"

text \<open>The handlers of \<open>setupHandlers\<close>, one equation each, in the order of the source.\<close>

fun handleRequest ::
  "('x, 'a, 'r) collaborators \<Rightarrow> 'a request \<Rightarrow> 'a call list
     \<Rightarrow> ('x thrown + 'r) \<times> 'a call list" where
  "handleRequest c ListResources log =
     (case checkConnection c log of
        (Inl e, log') \<Rightarrow> (Inl e, log')
      | (Inr _, log') \<Rightarrow> (listResources c, log' @ [Call_listResources]))"
| "handleRequest c ListResourceTemplates log =
     (case checkConnection c log of
        (Inl e, log') \<Rightarrow> (Inl e, log')
      | (Inr _, log') \<Rightarrow> (listResourceTemplates c, log' @ [Call_listResourceTemplates]))"
| "handleRequest c (ReadResource uri) log =
     (case checkConnection c log of
        (Inl e, log') \<Rightarrow> (Inl e, log')
      | (Inr _, log') \<Rightarrow> (readResource c uri, log' @ [Call_readResource uri]))"
| "handleRequest c ListTools log =
     (getToolSchema c, log @ [Call_getToolSchema])"
| "handleRequest c (CallTool name arguments) log =
     (case checkConnection c log of
        (Inl e, log') \<Rightarrow> (Inl e, log')
      | (Inr _, log') \<Rightarrow>
          (executeTool c name arguments, log' @ [Call_executeTool name arguments]))"

text \<open>
  A backend for the examples: the connectivity probe has the given outcome, and every
  handler would answer \<open>''ok''\<close>.
\<close>

definition backend :: "'x option \<Rightarrow> ('x, unit, string) collaborators" where
  "backend probe =
     \<lparr>ankiClient_checkConnection = probe,
      listResources = Inr ''ok'',
      listResourceTemplates = Inr ''ok'',
      readResource = (\<lambda>uri. Inr ''ok''),
      getToolSchema = Inr ''ok'',
      executeTool = (\<lambda>name arguments. Inr ''ok'')\<rparr>"

text \<open>
  Modelled from the spec: the error taxonomy of the AnkiConnect client, whose
  declaration (\<open>utils.ts\<close>) is not among the sources: \<open>ConnectionError\<close> (endpoint
  unreachable), \<open>TimeoutError\<close> (no response within the deadline) and
  \<open>ApiError(message)\<close> (the remote call returned a semantic error).
\<close>

datatype AnkiError = ConnectionError | TimeoutError | ApiError string

section \<open>The resource cache\<close>

text \<open>
  Modelled from the spec: the Resource Cache and the cache-backed read of the Resource
  Handler (\<open>mcpResource.ts\<close> is not among the sources). A cache entry is a value with
  the time it was fetched; an entry is valid iff \<open>now - fetchedAt < TTL\<close>, with a TTL of
  five minutes. Times are milliseconds. A key is the sentinel for "all note types with
  schemas" or a model name.
\<close>

datatype cacheKey = AllWithSchemas | ModelName string

record 'v CacheEntry =
  cachedValue :: 'v
  fetchedAt :: int

type_synonym 'v cache = "cacheKey \<Rightarrow> 'v CacheEntry option"

definition TTL :: int where
  "TTL = 5 * 60 * 1000"

text \<open>
  Modelled from the spec: \<open>get(key)\<close> returns the cached value if present and
  unexpired, otherwise absent. It does not change the cache.
\<close>

definition cache_get :: "'v cache \<Rightarrow> int \<Rightarrow> cacheKey \<Rightarrow> 'v option" where
  "cache_get cache now key =
     (case cache key of
        None \<Rightarrow> None
      | Some entry \<Rightarrow> if now - fetchedAt entry < TTL then Some (cachedValue entry) else None)"

text \<open>
  Modelled from the spec: \<open>put(key, value)\<close> stores the value with a fresh timestamp,
  overwriting any prior entry for that key.
\<close>

definition cache_put :: "'v cache \<Rightarrow> int \<Rightarrow> cacheKey \<Rightarrow> 'v \<Rightarrow> 'v cache" where
  "cache_put cache now key v = cache(key \<mapsto> \<lparr>cachedValue = v, fetchedAt = now\<rparr>)"

text \<open>
  Modelled from the spec: every read consults the cache first; a miss triggers a fetch
  through the client and a \<open>put\<close>. A failed fetch stores nothing.
\<close>

definition readThrough ::
  "(cacheKey \<Rightarrow> AnkiError + 'v) \<Rightarrow> 'v cache \<Rightarrow> int \<Rightarrow> cacheKey
     \<Rightarrow> (AnkiError + 'v) \<times> 'v cache" where
  "readThrough fetch cache now key =
     (case cache_get cache now key of
        Some v \<Rightarrow> (Inr v, cache)
      | None \<Rightarrow>
          (case fetch key of
             Inl e \<Rightarrow> (Inl e, cache)
           | Inr v \<Rightarrow> (Inr v, cache_put cache now key v)))"

section \<open>The AnkiConnect client: retry\<close>

text \<open>
  Modelled from the spec: \<open>AnkiClient.invoke\<close> (\<open>utils.ts\<close> is not among the
  sources). One attempt of the network request fails transiently, answers with an
  API-level error string, or answers with a result. The spec fixes neither the number
  of attempts nor the delays, so they are parameters: at most \<open>maxAttempts\<close> attempts,
  a first delay \<open>initialDelay\<close>, each later delay \<open>backoffFactor\<close> times the one before.
\<close>

datatype 'r attempt = NetworkFailure | ApiErrorResponse string | Result 'r

record retryPolicy =
  maxAttempts :: nat
  initialDelay :: nat
  backoffFactor :: nat

text \<open>What a call did: its outcome, how many attempts it made, the delays it waited.\<close>

record 'r invocation =
  outcome :: "AnkiError + 'r"
  attempts :: nat
  delays :: "nat list"

text \<open>
  Modelled from the spec: attempt number \<open>n\<close> of the network (\<open>network n\<close> is what the
  \<open>n\<close>-th attempt meets), with \<open>left\<close> attempts left, the next delay \<open>delay\<close>, and the
  delays waited so far. A result ends the call; an API-level error surfaces as
  \<open>ApiError\<close> without a retry; a transient failure is retried after the delay, until no
  attempt is left and \<open>ConnectionError\<close> surfaces.
\<close>

fun invoke_from ::
  "(nat \<Rightarrow> 'r attempt) \<Rightarrow> nat \<Rightarrow> nat \<Rightarrow> nat \<Rightarrow> nat \<Rightarrow> nat list \<Rightarrow> 'r invocation" where
  "invoke_from network factor delay n 0 waited =
     \<lparr>outcome = Inl ConnectionError, attempts = n, delays = waited\<rparr>"
| "invoke_from network factor delay n (Suc left) waited =
     (case network n of
        Result r \<Rightarrow> \<lparr>outcome = Inr r, attempts = Suc n, delays = waited\<rparr>
      | ApiErrorResponse message \<Rightarrow>
          \<lparr>outcome = Inl (ApiError message), attempts = Suc n, delays = waited\<rparr>
      | NetworkFailure \<Rightarrow>
          if left = 0
          then \<lparr>outcome = Inl ConnectionError, attempts = Suc n, delays = waited\<rparr>
          else invoke_from network factor (delay * factor) (Suc n) left (waited @ [delay]))"

definition invoke :: "retryPolicy \<Rightarrow> (nat \<Rightarrow> 'r attempt) \<Rightarrow> 'r invocation" where
  "invoke policy network =
     invoke_from network (backoffFactor policy) (initialDelay policy) 0 (maxAttempts policy) []"

text \<open>A network for the examples: the first \<open>m\<close> attempts fail, every later one answers.\<close>

definition failsFirst :: "nat \<Rightarrow> nat \<Rightarrow> string attempt" where
  "failsFirst m n = (if n < m then NetworkFailure else Result ''ok'')"

section \<open>Properties of the command line\<close>

lemma parseArgs_loop_done:
  "\<not> i < length args \<Longrightarrow> parseArgs_loop args i key = key"
  by (simp add: parseArgs_loop.simps [of args i key])

lemma parseArgs_loop_flag:
  "Suc i < length args \<Longrightarrow> args ! i = flagName \<Longrightarrow>
   parseArgs_loop args i key = parseArgs_loop args (Suc (Suc i)) (Some (cleanKey (args ! Suc i)))"
  by (simp add: parseArgs_loop.simps [of args i key])

lemma parseArgs_loop_other:
  "i < length args \<Longrightarrow> \<not> (args ! i = flagName \<and> Suc i < length args) \<Longrightarrow>
   parseArgs_loop args i key = parseArgs_loop args (Suc i) key"
  by (cases "args ! i = flagName") (simp_all add: parseArgs_loop.simps [of args i key])

lemma parseArgs_loop_scan:
  "parseArgs_loop args i key = scanArgs (drop i args) key"
proof (induction args i key rule: parseArgs_loop.induct)
  case (1 args i key)
  show ?case
  proof (cases "i < length args")
    case False
    then show ?thesis
      by (simp add: parseArgs_loop_done)
  next
    case inside: True
    then have d: "drop i args = args ! i # drop (Suc i) args"
      by (simp add: Cons_nth_drop_Suc)
    show ?thesis
    proof (cases "Suc i < length args")
      case False
      with inside have e: "drop (Suc i) args = []"
        by simp
      from False inside have "parseArgs_loop args i key = parseArgs_loop args (Suc i) key"
        by (simp add: parseArgs_loop_other)
      also from False have "\<dots> = key"
        by (simp add: parseArgs_loop_done)
      finally show ?thesis
        by (simp add: d e)
    next
      case more: True
      then have d': "drop (Suc i) args = args ! Suc i # drop (Suc (Suc i)) args"
        by (simp add: Cons_nth_drop_Suc)
      show ?thesis
      proof (cases "args ! i = flagName")
        case True
        with more
        have "parseArgs_loop args i key
                = parseArgs_loop args (Suc (Suc i)) (Some (cleanKey (args ! Suc i)))"
          by (simp add: parseArgs_loop_flag)
        also from True inside more
        have "\<dots> = scanArgs (drop (Suc (Suc i)) args) (Some (cleanKey (args ! Suc i)))"
          using "1.IH"(1) by simp
        finally show ?thesis
          using True by (simp add: d d')
      next
        case False
        with inside
        have "parseArgs_loop args i key = parseArgs_loop args (Suc i) key"
          by (simp add: parseArgs_loop_other)
        also from False inside
        have "\<dots> = scanArgs (drop (Suc i) args) key"
          using "1.IH"(2) by simp
        finally show ?thesis
          using False by (simp add: d d')
      qed
    qed
  qed
qed

lemma scanArgs_skip:
  "flagName \<notin> set pre \<Longrightarrow> scanArgs (pre @ rest) key = scanArgs rest key"
proof (induction pre)
  case Nil
  show ?case by simp
next
  case (Cons a pre)
  then have a: "a \<noteq> flagName" and IH: "scanArgs (pre @ rest) key = scanArgs rest key"
    by auto
  show ?case
  proof (cases "pre @ rest")
    case Nil
    then show ?thesis by simp
  next
    case (Cons x xs)
    with a IH show ?thesis by simp
  qed
qed

lemma scanArgs_no_flag:
  "flagName \<notin> set args \<Longrightarrow> scanArgs args key = key"
  using scanArgs_skip [of args "[]" key] by simp


text \<open>
  C9, as amended. When the flag occurs once, followed by a value \<open>v\<close>, among
  arguments none of which is the flag, the API key is \<open>v\<close> trimmed, then without its
  surrounding double quotes (and trimmed) if it starts and ends with one, then without
  its surrounding single quotes (and trimmed) if it starts and ends with one: a value
  in double quotes around single quotes loses both layers. The other arguments do not
  change the result, and without the flag the key is undefined.
\<close>

theorem parseArgs_key:
  "(flagName \<notin> set pre \<and> flagName \<notin> set post \<longrightarrow>
      parseArgs (node # script # pre @ flagName # v # post)
        = Some (stripQuotes singleQuote (stripQuotes doubleQuote (trim v))))
   \<and> (flagName \<notin> set args \<longrightarrow> parseArgs (node # script # args) = None)"
  by (simp add: parseArgs_def parseArgs_loop_scan scanArgs_skip scanArgs_no_flag cleanKey_def)

theorem parseArgs_key_witness:
  "flagName \<notin> set [js ''--verbose'']
   \<and> flagName \<notin> set [js ''--port'', js ''8765'']
   \<and> parseArgs [js ''node'', js ''index.js'', js ''--verbose'', flagName,
        [32, 34, 32, 97, 98, 99, 34, 32], js ''--port'', js ''8765'']
       = Some (js ''abc'')
   \<and> parseArgs [js ''node'', js ''index.js'', js ''--verbose''] = None"
  using parseArgs_key [of "[js ''--verbose'']" "[js ''--port'', js ''8765'']"
      "js ''node''" "js ''index.js''" "[32, 34, 32, 97, 98, 99, 34, 32]" "[js ''--verbose'']"]
  by (simp add: flagName_def js_def stripQuotes_def startsWith_def endsWith_def slice_def
      trim_def isWhiteSpace_def doubleQuote_def singleQuote_def)

text \<open>
  C9 as stated fails: for the value \<open>"'k'"\<close> the code removes the double quotes and
  then the single quotes and returns \<open>k\<close>, where one layer removed leaves \<open>'k'\<close>.
\<close>

theorem parseArgs_one_layer_counterexample:
  "parseArgs [js ''node'', js ''index.js'', flagName, [34, 39, 107, 39, 34]]
     \<noteq> Some (spec_oneLayer [34, 39, 107, 39, 34])"
  by (simp add: parseArgs_def parseArgs_loop_scan cleanKey_def spec_oneLayer_def
      stripQuotes_def startsWith_def endsWith_def slice_def trim_def isWhiteSpace_def
      doubleQuote_def singleQuote_def)


text \<open>
  C10, as amended. A final \<open>--anki-connect-key\<close> with nothing after it is ignored:
  when the loop reaches it, the key read so far is returned unchanged, without an
  error. The key is then undefined, and the server is configured without an API key,
  when no earlier argument is the flag.
\<close>

theorem parseArgs_dangling_flag:
  "parseArgs_loop (args @ [flagName]) (length args) key = key
   \<and> (flagName \<notin> set args \<longrightarrow>
        parseArgs (node # script # args @ [flagName]) = None
        \<and> apiKey (ankiConfig (parseArgs (node # script # args @ [flagName]))) = None)"
proof -
  have "parseArgs_loop (args @ [flagName]) (length args) key = key"
    by (simp add: parseArgs_loop_scan)
  moreover have "parseArgs (node # script # args @ [flagName]) = None"
    if "flagName \<notin> set args"
    using that scanArgs_skip [of args "[flagName]" None]
    by (simp add: parseArgs_def parseArgs_loop_scan)
  ultimately show ?thesis
    by (simp add: ankiConfig_def)
qed

theorem parseArgs_dangling_flag_witness:
  "flagName \<notin> set [js ''--verbose'']
   \<and> parseArgs [js ''node'', js ''index.js'', js ''--verbose'', flagName] = None
   \<and> apiKey (ankiConfig (parseArgs [js ''node'', js ''index.js'', js ''--verbose'', flagName]))
       = None
   \<and> parseArgs_loop [js ''--verbose'', flagName] 1 (Some (js ''k'')) = Some (js ''k'')"
  using parseArgs_dangling_flag
      [of "[js ''--verbose'']" "Some (js ''k'')" "js ''node''" "js ''index.js''"]
  by (simp add: flagName_def js_def ankiConfig_def)

text \<open>
  C10 as stated fails: after an earlier flag with a value, the final dangling flag
  leaves that value in place, and the server is configured with it.
\<close>

theorem parseArgs_dangling_flag_counterexample:
  "parseArgs [js ''node'', js ''index.js'', flagName, js ''k'', flagName] \<noteq> None
   \<and> apiKey (ankiConfig (parseArgs [js ''node'', js ''index.js'', flagName, js ''k'', flagName]))
       = Some (js ''k'')"
  by (simp add: parseArgs_def parseArgs_loop_scan cleanKey_def ankiConfig_def
      stripQuotes_def startsWith_def endsWith_def slice_def trim_def isWhiteSpace_def
      doubleQuote_def singleQuote_def js_def)

section \<open>Properties of the protocol server\<close>

text \<open>
  C1. Tool listing calls the tool handler at once, with no connectivity probe, and
  returns what the handler returns whatever the state of the backend. Every other
  request calls the probe first. When the probe fails, such a request fails with the
  internal error that says the connection to Anki failed, and nothing is dispatched;
  when it passes, the request is dispatched to its handler after the probe.
\<close>

theorem connectivity_preflight:
  "handleRequest c ListTools log = (getToolSchema c, log @ [Call_getToolSchema])
   \<and> (req \<noteq> ListTools \<longrightarrow>
        (\<exists>rest. snd (handleRequest c req log) = log @ Call_checkConnection # rest))
   \<and> (ankiClient_checkConnection c = Some e \<longrightarrow> req \<noteq> ListTools \<longrightarrow>
        handleRequest c req log
          = (Inl (McpError InternalError connectFailedMessage), log @ [Call_checkConnection]))
   \<and> (ankiClient_checkConnection c = None \<longrightarrow>
        handleRequest c ListResources log
          = (listResources c, log @ [Call_checkConnection, Call_listResources])
        \<and> handleRequest c ListResourceTemplates log
          = (listResourceTemplates c, log @ [Call_checkConnection, Call_listResourceTemplates])
        \<and> handleRequest c (ReadResource uri) log
          = (readResource c uri, log @ [Call_checkConnection, Call_readResource uri])
        \<and> handleRequest c (CallTool name arguments) log
          = (executeTool c name arguments,
             log @ [Call_checkConnection, Call_executeTool name arguments]))"
  by (cases req) (auto simp: checkConnection_def split: option.splits)

theorem connectivity_preflight_witness:
  "handleRequest (backend (Some ''ECONNREFUSED'')) ListTools []
     = (Inr ''ok'', [Call_getToolSchema])
   \<and> handleRequest (backend (Some ''ECONNREFUSED'')) (CallTool ''create_deck'' ()) []
       = (Inl (McpError InternalError connectFailedMessage), [Call_checkConnection])
   \<and> handleRequest (backend (Some ''ECONNREFUSED'')) (ReadResource ''anki://decks/all'') []
       = (Inl (McpError InternalError connectFailedMessage), [Call_checkConnection])
   \<and> handleRequest (backend (None :: string option)) (CallTool ''create_deck'' ()) []
       = (Inr ''ok'', [Call_checkConnection, Call_executeTool ''create_deck'' ()])"
  using connectivity_preflight
      [of "backend (Some ''ECONNREFUSED'')" "[]" "CallTool ''create_deck'' ()" "''ECONNREFUSED''"]
    connectivity_preflight
      [of "backend (Some ''ECONNREFUSED'')" "[]" "ReadResource ''anki://decks/all''"
        "''ECONNREFUSED''"]
    connectivity_preflight
      [of "backend (None :: string option)" "[]" ListTools "''ECONNREFUSED''"
        "''anki://decks/all''" "''create_deck''" "()"]
  by (simp add: backend_def)

text \<open>
  C6, as amended. Whichever of the three kinds of error the client's connectivity probe
  fails with, the server's \<open>checkConnection\<close> catches it and throws the generic
  internal error with one fixed, human-readable message; the message is the same for
  the three kinds.
\<close>

theorem checkConnection_surfaces_internal_error:
  "checkConnection (c\<lparr>ankiClient_checkConnection := Some ConnectionError\<rparr>) log
     = (Inl (McpError InternalError connectFailedMessage), log @ [Call_checkConnection])
   \<and> checkConnection (c\<lparr>ankiClient_checkConnection := Some TimeoutError\<rparr>) log
     = (Inl (McpError InternalError connectFailedMessage), log @ [Call_checkConnection])
   \<and> checkConnection (c\<lparr>ankiClient_checkConnection := Some (ApiError message)\<rparr>) log
     = (Inl (McpError InternalError connectFailedMessage), log @ [Call_checkConnection])"
  by (simp add: checkConnection_def)

text \<open>
  C6 as stated fails: a probe that fails with \<open>ConnectionError\<close> and one that fails
  with an \<open>ApiError\<close> surface as the same error with the same message, so the text
  does not tell the kinds apart.
\<close>

theorem checkConnection_kind_counterexample:
  "ConnectionError \<noteq> ApiError ''collection is not available''
   \<and> fst (checkConnection (backend (Some ConnectionError)) [])
       = fst (checkConnection (backend (Some (ApiError ''collection is not available''))) [])"
  by (simp add: checkConnection_def backend_def)


section \<open>Properties of the resource cache\<close>

text \<open>
  C3. A \<open>get\<close> at the time of the \<open>put\<close> of the same key returns the stored value,
  and so does any \<open>get\<close> less than the TTL after it; a \<open>get\<close> issued when
  \<open>now - fetchedAt\<close> has reached the TTL of five minutes returns absent; \<open>put\<close> stores
  the value with the time of the call, whatever the key held before.
\<close>

theorem cache_get_put:
  "cache_get (cache_put cache now key v) now key = Some v
   \<and> (later - now < TTL \<longrightarrow> cache_get (cache_put cache now key v) later key = Some v)
   \<and> (TTL \<le> later - now \<longrightarrow> cache_get (cache_put cache now key v) later key = None)
   \<and> (cache key = Some entry \<longrightarrow> TTL \<le> later - fetchedAt entry \<longrightarrow>
        cache_get cache later key = None)
   \<and> cache_put cache now key v key = Some \<lparr>cachedValue = v, fetchedAt = now\<rparr>
   \<and> TTL = 5 * 60 * 1000"
  by (simp add: cache_get_def cache_put_def TTL_def)

theorem cache_get_put_witness:
  "cache_get (cache_put Map.empty 1000 (ModelName ''Basic'') ''schema'') 1000 (ModelName ''Basic'')
     = Some ''schema''
   \<and> cache_get (cache_put Map.empty 1000 (ModelName ''Basic'') ''schema'') 300999
        (ModelName ''Basic'') = Some ''schema''
   \<and> cache_get (cache_put Map.empty 1000 (ModelName ''Basic'') ''schema'') 301000
        (ModelName ''Basic'') = None
   \<and> cache_get (cache_put Map.empty 1000 AllWithSchemas ''old'') 400000 AllWithSchemas = None
   \<and> cache_put (cache_put Map.empty 1000 AllWithSchemas ''old'') 400000 AllWithSchemas ''new''
        AllWithSchemas = Some \<lparr>cachedValue = ''new'', fetchedAt = 400000\<rparr>"
  using cache_get_put [of Map.empty 1000 "ModelName ''Basic''" "''schema''" 300999]
    cache_get_put [of Map.empty 1000 "ModelName ''Basic''" "''schema''" 301000]
    cache_get_put [of "cache_put Map.empty 1000 AllWithSchemas ''old''" 400000 AllWithSchemas
      "''new''" 400000 "\<lparr>cachedValue = ''old'', fetchedAt = 1000\<rparr>"]
  by (simp add: cache_put_def)

text \<open>
  C8. The bulk entry and the per-model entries are independent: a \<open>put\<close> on a model
  name leaves the bulk entry as it was, so a later \<open>get\<close> of the bulk key answers as
  before, and so does a cache-backed read of a model name; the same holds the other
  way round. Populating the entry for \<open>Basic\<close> in an empty cache leaves the bulk entry
  absent.
\<close>

theorem cache_keys_independent:
  "cache_put cache now (ModelName m) v AllWithSchemas = cache AllWithSchemas
   \<and> cache_put cache now AllWithSchemas v (ModelName m) = cache (ModelName m)
   \<and> cache_get (cache_put cache now (ModelName m) v) later AllWithSchemas
       = cache_get cache later AllWithSchemas
   \<and> cache_get (cache_put cache now AllWithSchemas v) later (ModelName m)
       = cache_get cache later (ModelName m)
   \<and> snd (readThrough fetch cache now (ModelName m)) AllWithSchemas = cache AllWithSchemas
   \<and> snd (readThrough fetch cache now AllWithSchemas) (ModelName m) = cache (ModelName m)
   \<and> cache_get (cache_put Map.empty now (ModelName ''Basic'') v) later AllWithSchemas = None"
  by (simp add: cache_get_def cache_put_def readThrough_def split: option.split sum.split)

section \<open>Properties of the retry\<close>

lemma invoke_from_attempts_le:
  "attempts (invoke_from network factor delay n left waited) \<le> n + left"
proof (induction left arbitrary: delay n waited)
  case 0
  show ?case by simp
next
  case (Suc left)
  show ?case
    using Suc.IH [of "delay * factor" "Suc n" "waited @ [delay]"]
    by (simp split: attempt.split)
qed

lemma invoke_from_attempts_gt:
  "0 < left \<Longrightarrow> n < attempts (invoke_from network factor delay n left waited)"
proof (induction left arbitrary: delay n waited)
  case 0
  then show ?case by simp
next
  case (Suc left)
  show ?case
  proof (cases "network n")
    case NetworkFailure
    show ?thesis
    proof (cases "left = 0")
      case True
      with NetworkFailure show ?thesis by simp
    next
      case False
      then have "Suc n < attempts (invoke_from network factor (delay * factor) (Suc n) left
          (waited @ [delay]))"
        using Suc.IH by simp
      with False NetworkFailure show ?thesis by simp
    qed
  qed simp_all
qed

lemma geometric_upt:
  "map (\<lambda>j. (delay::nat) * factor ^ j) [0..<Suc k]
     = delay # map (\<lambda>j. delay * factor * factor ^ j) [0..<k]"
proof -
  have "[0..<Suc k] = 0 # map Suc [0..<k]"
    by (simp add: upt_conv_Cons map_Suc_upt del: upt_Suc)
  then show ?thesis
    by (simp add: comp_def mult.assoc del: upt_Suc)
qed

lemma invoke_from_delays:
  "delays (invoke_from network factor delay n left waited)
     = waited @ map (\<lambda>j. delay * factor ^ j)
         [0..<attempts (invoke_from network factor delay n left waited) - Suc n]"
proof (induction left arbitrary: delay n waited)
  case 0
  show ?case by simp
next
  case (Suc left)
  show ?case
  proof (cases "network n")
    case NetworkFailure
    show ?thesis
    proof (cases "left = 0")
      case True
      with NetworkFailure show ?thesis by simp
    next
      case False
      let ?rest = "invoke_from network factor (delay * factor) (Suc n) left (waited @ [delay])"
      from False have "Suc n < attempts ?rest"
        by (simp add: invoke_from_attempts_gt)
      then obtain k where k: "attempts ?rest - Suc n = Suc k" "attempts ?rest - Suc (Suc n) = k"
        by (cases "attempts ?rest - Suc n") auto
      have "delays ?rest = (waited @ [delay]) @ map (\<lambda>j. delay * factor * factor ^ j) [0..<k]"
        using Suc.IH [of "delay * factor" "Suc n" "waited @ [delay]"] k by simp
      also have "\<dots> = waited @ map (\<lambda>j. delay * factor ^ j) [0..<Suc k]"
        by (simp only: geometric_upt append_assoc append_Cons append_Nil)
      finally show ?thesis
        using False NetworkFailure k by simp
    qed
  qed simp_all
qed

lemma invoke_from_ConnectionError:
  "outcome (invoke_from network factor delay n left waited) = Inl ConnectionError
   \<Longrightarrow> attempts (invoke_from network factor delay n left waited) = n + left"
  by (induction left arbitrary: delay n waited) (auto split: attempt.splits if_splits)

lemma invoke_from_all_fail:
  "(\<And>k. n \<le> k \<Longrightarrow> k < n + left \<Longrightarrow> network k = NetworkFailure)
   \<Longrightarrow> outcome (invoke_from network factor delay n left waited) = Inl ConnectionError"
  by (induction left arbitrary: delay n waited) auto

lemma invoke_from_first_answer:
  "j < left \<Longrightarrow> (\<And>k. k < j \<Longrightarrow> network (n + k) = NetworkFailure)
   \<Longrightarrow> network (n + j) \<noteq> NetworkFailure
   \<Longrightarrow> outcome (invoke_from network factor delay n left waited)
         = (case network (n + j) of
              Result r \<Rightarrow> Inr r
            | ApiErrorResponse message \<Rightarrow> Inl (ApiError message)
            | NetworkFailure \<Rightarrow> Inl ConnectionError)
       \<and> attempts (invoke_from network factor delay n left waited) = Suc (n + j)"
proof (induction j arbitrary: n left delay waited)
  case 0
  then obtain l where left: "left = Suc l"
    by (cases left) auto
  from 0 show ?case
    unfolding left by (cases "network n") simp_all
next
  case (Suc j)
  from Suc.prems(1) obtain l where left: "left = Suc l" and l: "j < l"
    by (cases left) auto
  have first: "network n = NetworkFailure"
    using Suc.prems(2) [of 0] by simp
  have earlier: "network (Suc n + k) = NetworkFailure" if "k < j" for k
    using that Suc.prems(2) [of "Suc k"] by simp
  have answer: "network (Suc n + j) \<noteq> NetworkFailure"
    using Suc.prems(3) by simp
  have step: "invoke_from network factor delay n left waited
      = invoke_from network factor (delay * factor) (Suc n) l (waited @ [delay])"
    using first l unfolding left by simp
  show ?case
    using Suc.IH [of l "Suc n" "delay * factor" "waited @ [delay]", OF l earlier answer]
    unfolding step by simp
qed

lemma invoke_from_ConnectionError_all_failed:
  "outcome (invoke_from network factor delay n left waited) = Inl ConnectionError
   \<Longrightarrow> k < left \<Longrightarrow> network (n + k) = NetworkFailure"
proof (induction left arbitrary: delay n waited k)
  case 0
  then show ?case by simp
next
  case (Suc left)
  from Suc.prems(1) have first: "network n = NetworkFailure"
    by (cases "network n") simp_all
  show ?case
  proof (cases k)
    case 0
    with first show ?thesis by simp
  next
    case (Suc k')
    with Suc.prems(2) have k': "k' < left"
      by simp
    then have "left \<noteq> 0"
      by simp
    with first Suc.prems(1)
    have "outcome (invoke_from network factor (delay * factor) (Suc n) left (waited @ [delay]))
        = Inl ConnectionError"
      by simp
    from Suc.IH [OF this k'] show ?thesis
      using Suc by simp
  qed
qed

lemma geometric_growth:
  assumes "0 < (delay::nat)" and "2 \<le> factor"
  shows "delay * factor ^ i < delay * factor ^ Suc i"
proof -
  from assms have pos: "0 < delay * factor ^ i"
    by simp
  from assms(2) have "(1::nat) < factor"
    by simp
  then have "delay * factor ^ i * 1 < delay * factor ^ i * factor"
    using pos by (rule mult_strict_left_mono)
  then show ?thesis
    by (simp add: ac_simps)
qed

text \<open>
  C2. A call whose network request fails transiently exactly once and then answers
  succeeds with that answer after exactly two attempts and one delay, under a policy
  that allows at least two attempts. In general, with \<open>maxAttempts\<close> attempts allowed:
  when the first \<open>j\<close> requests fail transiently and request \<open>j\<close> answers, the call
  succeeds with that answer after \<open>j + 1\<close> attempts; when request \<open>j\<close> answers with
  an API-level error, \<open>ApiError\<close> surfaces at once, without a further attempt; when all
  \<open>maxAttempts\<close> requests fail transiently, \<open>ConnectionError\<close> surfaces after exactly
  \<open>maxAttempts\<close> attempts, and \<open>ConnectionError\<close> surfaces in no other case. The delay
  before retry \<open>i\<close> is \<open>initialDelay * backoffFactor ^ i\<close>, and with a positive first
  delay and a factor of at least two each delay is longer than the one before.
\<close>

theorem invoke_retry:
  "(2 \<le> maxAttempts policy \<and> network 0 = NetworkFailure \<and> network 1 = Result r \<longrightarrow>
      outcome (invoke policy network) = Inr r
      \<and> attempts (invoke policy network) = 2
      \<and> delays (invoke policy network) = [initialDelay policy])
   \<and> (j < maxAttempts policy \<and> (\<forall>k<j. network k = NetworkFailure) \<and> network j = Result r \<longrightarrow>
        outcome (invoke policy network) = Inr r
        \<and> attempts (invoke policy network) = Suc j)
   \<and> (j < maxAttempts policy \<and> (\<forall>k<j. network k = NetworkFailure)
        \<and> network j = ApiErrorResponse message \<longrightarrow>
        outcome (invoke policy network) = Inl (ApiError message)
        \<and> attempts (invoke policy network) = Suc j)
   \<and> ((\<forall>k<maxAttempts policy. network k = NetworkFailure) \<longrightarrow>
        outcome (invoke policy network) = Inl ConnectionError
        \<and> attempts (invoke policy network) = maxAttempts policy)
   \<and> (outcome (invoke policy network) = Inl ConnectionError \<longrightarrow>
        (\<forall>k<maxAttempts policy. network k = NetworkFailure)
        \<and> attempts (invoke policy network) = maxAttempts policy)
   \<and> attempts (invoke policy network) \<le> maxAttempts policy
   \<and> delays (invoke policy network)
       = map (\<lambda>i. initialDelay policy * backoffFactor policy ^ i)
           [0..<attempts (invoke policy network) - 1]
   \<and> (0 < initialDelay policy \<and> 2 \<le> backoffFactor policy \<longrightarrow>
        (\<forall>i. Suc i < length (delays (invoke policy network)) \<longrightarrow>
           delays (invoke policy network) ! i < delays (invoke policy network) ! Suc i))"
proof -
  let ?call = "invoke policy network"
  have answer: "outcome ?call
         = (case network j of
              Result r \<Rightarrow> Inr r
            | ApiErrorResponse message \<Rightarrow> Inl (ApiError message)
            | NetworkFailure \<Rightarrow> Inl ConnectionError)
       \<and> attempts ?call = Suc j"
    if "j < maxAttempts policy" "\<forall>k<j. network k = NetworkFailure"
      "network j \<noteq> NetworkFailure" for j
    using that invoke_from_first_answer [of j "maxAttempts policy" network 0]
    by (simp add: invoke_def)
  have geometric: "delays ?call
       = map (\<lambda>i. initialDelay policy * backoffFactor policy ^ i) [0..<attempts ?call - 1]"
    using invoke_from_delays [of network _ _ 0 _ "[]"] by (simp add: invoke_def)
  have once: "outcome ?call = Inr r \<and> attempts ?call = 2 \<and> delays ?call = [initialDelay policy]"
    if "2 \<le> maxAttempts policy" "network 0 = NetworkFailure" "network 1 = Result r"
  proof -
    from that have "outcome ?call = Inr r \<and> attempts ?call = Suc 1"
      using answer [of 1] by simp
    then show ?thesis
      using geometric by simp
  qed
  have result: "outcome ?call = Inr r \<and> attempts ?call = Suc j"
    if "j < maxAttempts policy" "\<forall>k<j. network k = NetworkFailure" "network j = Result r"
    using that answer [of j] by simp
  have api: "outcome ?call = Inl (ApiError message) \<and> attempts ?call = Suc j"
    if "j < maxAttempts policy" "\<forall>k<j. network k = NetworkFailure"
      "network j = ApiErrorResponse message"
    using that answer [of j] by simp
  have surfaced: "attempts ?call = maxAttempts policy" if "outcome ?call = Inl ConnectionError"
    using that invoke_from_ConnectionError [of network _ _ 0 _ "[]"] by (simp add: invoke_def)
  have exhausted: "outcome ?call = Inl ConnectionError"
    if "\<forall>k<maxAttempts policy. network k = NetworkFailure"
    using that invoke_from_all_fail [of 0 "maxAttempts policy" network] by (simp add: invoke_def)
  have only: "\<forall>k<maxAttempts policy. network k = NetworkFailure"
    if "outcome ?call = Inl ConnectionError"
    using that invoke_from_ConnectionError_all_failed [of network _ _ 0 _ "[]"]
    by (simp add: invoke_def)
  have bound: "attempts ?call \<le> maxAttempts policy"
    using invoke_from_attempts_le [of network _ _ 0] by (simp add: invoke_def)
  have growth: "delays ?call ! i < delays ?call ! Suc i"
    if "0 < initialDelay policy" "2 \<le> backoffFactor policy" "Suc i < length (delays ?call)" for i
  proof -
    from that(3) have len: "Suc i < attempts ?call - 1"
      by (simp add: geometric)
    then have "delays ?call ! i = initialDelay policy * backoffFactor policy ^ i"
      by (simp add: geometric)
    moreover from len
    have "delays ?call ! Suc i = initialDelay policy * backoffFactor policy ^ Suc i"
      by (simp add: geometric)
    ultimately show ?thesis
      using geometric_growth [OF that(1,2), of i] by (simp only:)
  qed
  show ?thesis
  proof (intro conjI impI allI)
    assume "2 \<le> maxAttempts policy \<and> network 0 = NetworkFailure \<and> network 1 = Result r"
    then show "outcome ?call = Inr r" "attempts ?call = 2" "delays ?call = [initialDelay policy]"
      using once by simp_all
  next
    assume "j < maxAttempts policy \<and> (\<forall>k<j. network k = NetworkFailure) \<and> network j = Result r"
    then show "outcome ?call = Inr r" "attempts ?call = Suc j"
      using result by simp_all
  next
    assume "j < maxAttempts policy \<and> (\<forall>k<j. network k = NetworkFailure)
        \<and> network j = ApiErrorResponse message"
    then show "outcome ?call = Inl (ApiError message)" "attempts ?call = Suc j"
      using api by simp_all
  next
    assume all: "\<forall>k<maxAttempts policy. network k = NetworkFailure"
    then show "outcome ?call = Inl ConnectionError"
      by (rule exhausted)
    then show "attempts ?call = maxAttempts policy"
      by (rule surfaced)
  next
    fix k
    assume "outcome ?call = Inl ConnectionError" "k < maxAttempts policy"
    then show "network k = NetworkFailure"
      using only by simp
  next
    assume "outcome ?call = Inl ConnectionError"
    then show "attempts ?call = maxAttempts policy"
      by (rule surfaced)
  next
    show "attempts ?call \<le> maxAttempts policy"
      by (rule bound)
  next
    show "delays ?call
       = map (\<lambda>i. initialDelay policy * backoffFactor policy ^ i) [0..<attempts ?call - 1]"
      by (rule geometric)
  next
    fix i
    assume "0 < initialDelay policy \<and> 2 \<le> backoffFactor policy"
      "Suc i < length (delays ?call)"
    then show "delays ?call ! i < delays ?call ! Suc i"
      using growth by simp
  qed
qed

theorem invoke_retry_witness:
  "outcome (invoke \<lparr>maxAttempts = 3, initialDelay = 1000, backoffFactor = 2\<rparr> (failsFirst 1))
     = Inr ''ok''
   \<and> attempts (invoke \<lparr>maxAttempts = 3, initialDelay = 1000, backoffFactor = 2\<rparr> (failsFirst 1))
       = 2
   \<and> delays (invoke \<lparr>maxAttempts = 3, initialDelay = 1000, backoffFactor = 2\<rparr> (failsFirst 1))
       = [1000]
   \<and> outcome (invoke \<lparr>maxAttempts = 3, initialDelay = 1000, backoffFactor = 2\<rparr> (failsFirst 2))
       = Inr ''ok''
   \<and> attempts (invoke \<lparr>maxAttempts = 3, initialDelay = 1000, backoffFactor = 2\<rparr> (failsFirst 2))
       = 3
   \<and> delays (invoke \<lparr>maxAttempts = 3, initialDelay = 1000, backoffFactor = 2\<rparr> (failsFirst 2))
       = [1000, 2000]
   \<and> delays (invoke \<lparr>maxAttempts = 3, initialDelay = 1000, backoffFactor = 2\<rparr> (failsFirst 2)) ! 0
       < delays (invoke \<lparr>maxAttempts = 3, initialDelay = 1000, backoffFactor = 2\<rparr> (failsFirst 2)) ! 1
   \<and> outcome (invoke \<lparr>maxAttempts = 3, initialDelay = 1000, backoffFactor = 2\<rparr> (failsFirst 3))
       = Inl ConnectionError
   \<and> attempts (invoke \<lparr>maxAttempts = 3, initialDelay = 1000, backoffFactor = 2\<rparr> (failsFirst 3))
       = 3
   \<and> outcome (invoke \<lparr>maxAttempts = 3, initialDelay = 1000, backoffFactor = 2\<rparr>
        (\<lambda>n. if n = 0 then NetworkFailure else ApiErrorResponse ''deck was not found''
           :: string attempt)) = Inl (ApiError ''deck was not found'')
   \<and> attempts (invoke \<lparr>maxAttempts = 3, initialDelay = 1000, backoffFactor = 2\<rparr>
        (\<lambda>n. if n = 0 then NetworkFailure else ApiErrorResponse ''deck was not found''
           :: string attempt)) = 2"
  using invoke_retry [of "\<lparr>maxAttempts = 3, initialDelay = 1000, backoffFactor = 2\<rparr>"
      "failsFirst 1" "''ok''" 1 "''x''"]
    invoke_retry [of "\<lparr>maxAttempts = 3, initialDelay = 1000, backoffFactor = 2\<rparr>"
      "failsFirst 2" "''ok''" 2 "''x''"]
    invoke_retry [of "\<lparr>maxAttempts = 3, initialDelay = 1000, backoffFactor = 2\<rparr>"
      "failsFirst 3" "''ok''" 2 "''x''"]
    invoke_retry [of "\<lparr>maxAttempts = 3, initialDelay = 1000, backoffFactor = 2\<rparr>"
      "\<lambda>n. if n = 0 then NetworkFailure else ApiErrorResponse ''deck was not found''
         :: string attempt" "''ok''" 1 "''deck was not found''"]
  by (simp add: failsFirst_def invoke_def numeral_3_eq_3)

end
